theory Spec2Isabelle
  imports Complex_Main "HOL-Library.Char_ord" "HOL-Library.List_Lexorder"
begin

section \<open>Data model (src/models)\<close>

text \<open>
  The wallet service keeps four MongoDB collections. Each collection is a list of
  documents in insertion order. An ObjectId is the string \<open>toString()\<close> gives for it;
  strings are ordered lexicographically by character code, which is the order
  \<open>Array.prototype.sort\<close> uses when it is called without a comparator. The ids of
  Transaction and LedgerEntry documents are only ever compared for equality and are
  natural numbers here.

  Amounts and balances are JavaScript numbers in the source. They are exact rationals
  here: rounding error of floating point arithmetic is outside this development, and so
  are the infinities and NaN (which the amount check of step 2 refuses, as it does zero). The
  fields \<open>description\<close>, \<open>metadata\<close>, \<open>displayName\<close>, \<open>name\<close> and the timestamps are
  payload that no branch of the service reads; they are left out.
\<close>

type_synonym oid = string

datatype account_kind = User | System

record account =
  acc_id :: oid
  userId :: string
  accountType :: account_kind
  assetType :: oid
  balance :: rat
  isActive :: bool

record asset_type =
  at_id :: oid
  code :: string
  decimalPlaces :: nat
  at_isActive :: bool

datatype tx_type = Topup | Bonus | Spend | Adjustment

datatype tx_status = Pending | Completed | Failed

text \<open>
  Every \<open>throw new Error(...)\<close> of walletService.js is one constructor, carrying the values
  its message interpolates, so a value of this type determines \<open>err.message\<close>.
  \<open>DuplicateKey\<close> is the driver's error with \<open>code === 11000\<close>, \<open>ValidationError\<close> is what
  Mongoose raises when a document does not pass its schema, \<open>DocumentNotFound\<close> is what
  \<open>save()\<close> raises when the document it updates is gone.
\<close>

datatype error =
    InvalidAmount
  | SourceNotFound oid
  | DestinationNotFound oid
  | SourceInactive
  | DestinationInactive
  | AssetMismatch
  | DuplicateKey
  | ValidationError
  | DocumentNotFound
  | TransactionConflict
  | InsufficientBalance string rat rat
  | CreditFailed string
  | AssetNotFound string
  | WalletNotFound string
  | WalletInactive string
  | SystemAccountNotFound string

record transaction =
  tx_id :: nat
  idempotencyKey :: string
  tx_assetType :: oid
  fromAccount :: oid
  toAccount :: oid
  amount :: rat
  txType :: tx_type
  status :: tx_status
  ledgerEntries :: "nat list"
  failureReason :: "error option"

datatype entry_type = Debit | Credit

record ledger_entry =
  le_id :: nat
  transactionId :: nat
  le_account :: oid
  le_assetType :: oid
  entryType :: entry_type
  le_amount :: rat
  balanceAfter :: rat

record store =
  assetTypes :: "asset_type list"
  accounts :: "account list"
  transactions :: "transaction list"
  ledger :: "ledger_entry list"

section \<open>Store primitives (the Mongoose calls the service makes)\<close>

text \<open>
  Modelled from the spec: the generator of \<open>_id\<close> values is Mongoose's, not this
  repository's. "All identifiers are opaque unique strings/handles issued by the Store":
  a new document gets an id that no document of its collection has.
\<close>

definition freshId :: "nat list \<Rightarrow> nat" where
  "freshId ids = Suc (fold max ids 0)"

text \<open>\<open>findOneAndUpdate\<close> and \<open>findByIdAndUpdate\<close> change the first document that matches.\<close>

fun updateFirst :: "('a \<Rightarrow> bool) \<Rightarrow> ('a \<Rightarrow> 'a) \<Rightarrow> 'a list \<Rightarrow> 'a list" where
  "updateFirst P f [] = []"
| "updateFirst P f (x # xs) = (if P x then f x # xs else x # updateFirst P f xs)"

definition Transaction_findOne :: "store \<Rightarrow> string \<Rightarrow> oid \<Rightarrow> transaction option" where
  "Transaction_findOne s k a =
     find (\<lambda>t. idempotencyKey t = k \<and> tx_assetType t = a) (transactions s)"

definition Account_findById :: "store \<Rightarrow> oid \<Rightarrow> account option" where
  "Account_findById s i = find (\<lambda>a. acc_id a = i) (accounts s)"

text \<open>
  \<open>Transaction.create\<close>: Mongoose validates the document against the schema of
  models/Transaction.js (\<open>idempotencyKey\<close> required, \<open>amount\<close> at least 0.000001; the other
  required fields are always given), then inserts it; the unique index on
  \<open>(idempotencyKey, assetType)\<close> refuses a second document with the same pair.
\<close>

definition Transaction_valid :: "transaction \<Rightarrow> bool" where
  "Transaction_valid t \<longleftrightarrow> idempotencyKey t \<noteq> [] \<and> 1 / 1000000 \<le> amount t"

definition Transaction_create :: "store \<Rightarrow> transaction \<Rightarrow> error + (transaction \<times> store)" where
  "Transaction_create s doc =
     (if \<not> Transaction_valid doc then Inl ValidationError
      else if Transaction_findOne s (idempotencyKey doc) (tx_assetType doc) \<noteq> None
        then Inl DuplicateKey
      else (let t = doc\<lparr>tx_id := freshId (map tx_id (transactions s))\<rparr>
            in Inr (t, s\<lparr>transactions := transactions s @ [t]\<rparr>)))"

text \<open>
  \<open>transaction.save()\<close> writes the two modified paths of the in-memory document to
  the stored document with the same \<open>_id\<close>.
\<close>

definition Transaction_save :: "store \<Rightarrow> transaction \<Rightarrow> error + store" where
  "Transaction_save s t =
     (if find (\<lambda>x. tx_id x = tx_id t) (transactions s) = None then Inl DocumentNotFound
      else Inr (s\<lparr>transactions :=
             updateFirst (\<lambda>x. tx_id x = tx_id t)
               (\<lambda>x. x\<lparr>status := status t, ledgerEntries := ledgerEntries t\<rparr>)
               (transactions s)\<rparr>))"

text \<open>\<open>Transaction.findByIdAndUpdate(id, {status: 'failed', failureReason: err.message})\<close>\<close>

definition Transaction_markFailed :: "store \<Rightarrow> nat \<Rightarrow> error \<Rightarrow> store" where
  "Transaction_markFailed s i e =
     s\<lparr>transactions :=
         updateFirst (\<lambda>x. tx_id x = i)
           (\<lambda>x. x\<lparr>status := Failed, failureReason := Some e\<rparr>)
           (transactions s)\<rparr>"

text \<open>
  \<open>Account.findOneAndUpdate(filter, {$inc: {balance: d}}, {new: true})\<close>: the first account
  matching the filter gets its balance changed and is returned as updated; \<open>null\<close> when
  no account matches. Update validators are off by default, so the schema's
  \<open>min: 0\<close> on \<open>balance\<close> is not checked here.
\<close>

definition Account_findOneAndUpdate ::
  "store \<Rightarrow> (account \<Rightarrow> bool) \<Rightarrow> rat \<Rightarrow> (account \<times> store) option" where
  "Account_findOneAndUpdate s P d =
     (case find P (accounts s) of
        None \<Rightarrow> None
      | Some a \<Rightarrow>
          Some (a\<lparr>balance := balance a + d\<rparr>,
                s\<lparr>accounts := updateFirst P (\<lambda>x. x\<lparr>balance := balance x + d\<rparr>) (accounts s)\<rparr>))"

text \<open>
  \<open>LedgerEntry.create\<close>: validation against models/LedgerEntry.js (\<open>amount\<close> at least
  0.000001), then insertion under a new id.
\<close>

definition LedgerEntry_create :: "store \<Rightarrow> ledger_entry \<Rightarrow> error + (ledger_entry \<times> store)" where
  "LedgerEntry_create s doc =
     (if \<not> 1 / 1000000 \<le> le_amount doc then Inl ValidationError
      else (let e = doc\<lparr>le_id := freshId (map le_id (ledger s))\<rparr>
            in Inr (e, s\<lparr>ledger := ledger s @ [e]\<rparr>)))"

section \<open>The transfer engine (src/utils/walletService.js)\<close>

text \<open>
  Every \<open>await\<close> of \<open>_executeTransfer\<close> is a point where other requests and operators may
  change the collections before the awaited call takes effect. An environment gives,
  for each such point, what happens to the store there; \<open>no_env\<close> is the run of one
  request alone. The points are numbered in program order:
  0 the idempotency lookup, 1 the loading of the two accounts, 2 the insertion of the
  pending Transaction, 3 the 50 ms pause before the re-read, 4 and 5 the two balance
  updates, 6 the insertion of the ledger entries, 7 the saving of the completed
  Transaction, 8 the update that marks it failed.
\<close>

type_synonym env = "nat \<Rightarrow> store \<Rightarrow> store"

definition no_env :: env where
  "no_env k s = s"

record params =
  p_idempotencyKey :: string
  p_fromAccountId :: oid
  p_toAccountId :: oid
  p_assetTypeId :: oid
  p_amount :: rat
  p_type :: tx_type

record result =
  r_transaction :: transaction
  isIdempotentReplay :: bool

text \<open>
  The balance updates a call issues, in the order it issues them, are returned beside
  the outcome and the store; an update that matched no account is listed too.
\<close>

datatype acct_op = OpDebit oid rat | OpCredit oid rat


definition atomicDebit :: "store \<Rightarrow> account \<Rightarrow> rat \<Rightarrow> error + (account \<times> store)" where
  "atomicDebit s acc amt =
     (case Account_findOneAndUpdate s
             (\<lambda>x. acc_id x = acc_id acc \<and> amt \<le> balance x \<and> isActive x) (- amt) of
        None \<Rightarrow> Inl (InsufficientBalance (userId acc) (balance acc) amt)
      | Some r \<Rightarrow> Inr r)"

definition atomicCredit :: "store \<Rightarrow> account \<Rightarrow> rat \<Rightarrow> error + (account \<times> store)" where
  "atomicCredit s acc amt =
     (case Account_findOneAndUpdate s (\<lambda>x. acc_id x = acc_id acc \<and> isActive x) amt of
        None \<Rightarrow> Inl (CreditFailed (userId acc))
      | Some r \<Rightarrow> Inr r)"

text \<open>Step 3 of the source: both accounts are loaded and checked.\<close>

definition loadAccounts :: "store \<Rightarrow> params \<Rightarrow> error + (account \<times> account)" where
  "loadAccounts s p =
     (case Account_findById s (p_fromAccountId p) of
        None \<Rightarrow> Inl (SourceNotFound (p_fromAccountId p))
      | Some fromAcc \<Rightarrow>
     (case Account_findById s (p_toAccountId p) of
        None \<Rightarrow> Inl (DestinationNotFound (p_toAccountId p))
      | Some toAcc \<Rightarrow>
          if \<not> isActive fromAcc then Inl SourceInactive
          else if \<not> isActive toAcc then Inl DestinationInactive
          else if assetType fromAcc \<noteq> p_assetTypeId p \<or> assetType toAcc \<noteq> p_assetTypeId p
            then Inl AssetMismatch
          else Inr (fromAcc, toAcc)))"

text \<open>The document handed to \<open>Transaction.create\<close> in step 4 (its id is given by the store).\<close>

definition pendingDoc :: "params \<Rightarrow> transaction" where
  "pendingDoc p =
     \<lparr>tx_id = 0, idempotencyKey = p_idempotencyKey p, tx_assetType = p_assetTypeId p,
      fromAccount = p_fromAccountId p, toAccount = p_toAccountId p, amount = p_amount p,
      txType = p_type p, status = Pending, ledgerEntries = [], failureReason = None\<rparr>"

text \<open>
  Step 5: \<open>[fromAccountId, toAccountId].sort()\<close> and the two updates in that order.
  The first failing update throws, so the one after it is not issued.
\<close>

definition applyUpdates ::
  "env \<Rightarrow> store \<Rightarrow> params \<Rightarrow> account \<Rightarrow> account \<Rightarrow>
     (error + (account \<times> account)) \<times> store \<times> acct_op list" where
  "applyUpdates ev s p fromAcc toAcc =
     (let firstId = hd (sort [p_fromAccountId p, p_toAccountId p]);
          processInOrder = (firstId = p_fromAccountId p);
          amt = p_amount p;
          debit = OpDebit (acc_id fromAcc) amt;
          credit = OpCredit (acc_id toAcc) amt;
          s4 = ev 4 s
      in if processInOrder then
           (case atomicDebit s4 fromAcc amt of
              Inl e \<Rightarrow> (Inl e, s4, [debit])
            | Inr (updatedFrom, s4') \<Rightarrow>
                (let s5 = ev 5 s4' in
                 case atomicCredit s5 toAcc amt of
                   Inl e \<Rightarrow> (Inl e, s5, [debit, credit])
                 | Inr (updatedTo, s5') \<Rightarrow> (Inr (updatedFrom, updatedTo), s5', [debit, credit])))
         else
           (case atomicCredit s4 toAcc amt of
              Inl e \<Rightarrow> (Inl e, s4, [credit])
            | Inr (updatedTo, s4') \<Rightarrow>
                (let s5 = ev 5 s4' in
                 case atomicDebit s5 fromAcc amt of
                   Inl e \<Rightarrow> (Inl e, s5, [credit, debit])
                 | Inr (updatedFrom, s5') \<Rightarrow> (Inr (updatedFrom, updatedTo), s5', [credit, debit]))))"

text \<open>
  Step 6: the two \<open>LedgerEntry.create\<close> calls under \<open>Promise.all\<close>. Both are started; the
  result is the pair of entries, or the error of the first that failed.
\<close>

definition createLedgerEntries ::
  "store \<Rightarrow> params \<Rightarrow> transaction \<Rightarrow> account \<Rightarrow> account \<Rightarrow>
     (error + (ledger_entry \<times> ledger_entry)) \<times> store" where
  "createLedgerEntries s p t updatedFrom updatedTo =
     (let debitDoc = \<lparr>le_id = 0, transactionId = tx_id t, le_account = p_fromAccountId p,
                      le_assetType = p_assetTypeId p, entryType = Debit,
                      le_amount = p_amount p, balanceAfter = balance updatedFrom\<rparr>;
          creditDoc = \<lparr>le_id = 0, transactionId = tx_id t, le_account = p_toAccountId p,
                       le_assetType = p_assetTypeId p, entryType = Credit,
                       le_amount = p_amount p, balanceAfter = balance updatedTo\<rparr>
      in case LedgerEntry_create s debitDoc of
           Inl e \<Rightarrow>
             (case LedgerEntry_create s creditDoc of
                Inl e' \<Rightarrow> (Inl e, s)
              | Inr (c, s') \<Rightarrow> (Inl e, s'))
         | Inr (debitEntry, s') \<Rightarrow>
             (case LedgerEntry_create s' creditDoc of
                Inl e \<Rightarrow> (Inl e, s')
              | Inr (creditEntry, s'') \<Rightarrow> (Inr (debitEntry, creditEntry), s'')))"

text \<open>The \<open>try\<close> block: steps 5 to 7.\<close>

definition tryBlock ::
  "env \<Rightarrow> store \<Rightarrow> params \<Rightarrow> account \<Rightarrow> account \<Rightarrow> transaction \<Rightarrow>
     (error + result) \<times> store \<times> acct_op list" where
  "tryBlock ev s p fromAcc toAcc t =
     (case applyUpdates ev s p fromAcc toAcc of
        (Inl e, s', ops) \<Rightarrow> (Inl e, s', ops)
      | (Inr (updatedFrom, updatedTo), s', ops) \<Rightarrow>
          (case createLedgerEntries (ev 6 s') p t updatedFrom updatedTo of
             (Inl e, s'') \<Rightarrow> (Inl e, s'', ops)
           | (Inr (debitEntry, creditEntry), s'') \<Rightarrow>
               (let t' = t\<lparr>status := Completed,
                           ledgerEntries := [le_id debitEntry, le_id creditEntry]\<rparr>;
                    s7 = ev 7 s''
                in case Transaction_save s7 t' of
                     Inl e \<Rightarrow> (Inl e, s7, ops)
                   | Inr s7' \<Rightarrow>
                       (Inr \<lparr>r_transaction = t', isIdempotentReplay = False\<rparr>, s7', ops))))"

text \<open>
  \<open>_executeTransfer\<close>. The result is the value returned or the error thrown, the store
  the call leaves, and the balance updates it issued. On a replay the source returns the
  stored Transaction with \<open>populate('ledgerEntries')\<close>, which shows the referenced ledger
  documents in place of their ids; the stored document is what is returned here.
\<close>

definition executeTransfer_env ::
  "env \<Rightarrow> params \<Rightarrow> store \<Rightarrow> (error + result) \<times> store \<times> acct_op list" where
  "executeTransfer_env ev p s =
     (let s0 = ev 0 s in
      case Transaction_findOne s0 (p_idempotencyKey p) (p_assetTypeId p) of
        Some existing \<Rightarrow> (Inr \<lparr>r_transaction = existing, isIdempotentReplay = True\<rparr>, s0, [])
      | None \<Rightarrow>
          if p_amount p = 0 \<or> p_amount p \<le> 0 then (Inl InvalidAmount, s0, [])
          else
            (let s1 = ev 1 s0 in
             case loadAccounts s1 p of
               Inl e \<Rightarrow> (Inl e, s1, [])
             | Inr (fromAcc, toAcc) \<Rightarrow>
                 (let s2 = ev 2 s1 in
                  case Transaction_create s2 (pendingDoc p) of
                    Inl err \<Rightarrow>
                      if err = DuplicateKey then
                        (let s3 = ev 3 s2 in
                         case Transaction_findOne s3 (p_idempotencyKey p) (p_assetTypeId p) of
                           Some raced \<Rightarrow>
                             (Inr \<lparr>r_transaction = raced, isIdempotentReplay = True\<rparr>, s3, [])
                         | None \<Rightarrow> (Inl TransactionConflict, s3, []))
                      else (Inl err, s2, [])
                  | Inr (t, s2') \<Rightarrow>
                      (case tryBlock ev s2' p fromAcc toAcc t of
                         (Inr r, s', ops) \<Rightarrow> (Inr r, s', ops)
                       | (Inl err, s', ops) \<Rightarrow>
                           (Inl err, Transaction_markFailed (ev 8 s') (tx_id t) err, ops)))))"

definition executeTransfer :: "params \<Rightarrow> store \<Rightarrow> (error + result) \<times> store \<times> acct_op list" where
  "executeTransfer p s = executeTransfer_env no_env p s"

section \<open>Resolvers and the three flows\<close>

text \<open>\<open>String.prototype.toUpperCase\<close> on the ASCII letters; other characters are kept.\<close>

definition upperChar :: "char \<Rightarrow> char" where
  "upperChar c =
     (case map_of (zip ''abcdefghijklmnopqrstuvwxyz'' ''ABCDEFGHIJKLMNOPQRSTUVWXYZ'') c of
        None \<Rightarrow> c
      | Some u \<Rightarrow> u)"

definition toUpperCase :: "string \<Rightarrow> string" where
  "toUpperCase cs = map upperChar cs"

definition getAssetType :: "store \<Rightarrow> string \<Rightarrow> error + asset_type" where
  "getAssetType s c =
     (case find (\<lambda>a. code a = toUpperCase c \<and> at_isActive a) (assetTypes s) of
        None \<Rightarrow> Inl (AssetNotFound c)
      | Some a \<Rightarrow> Inr a)"

definition getUserAccount :: "store \<Rightarrow> string \<Rightarrow> oid \<Rightarrow> error + account" where
  "getUserAccount s u a =
     (case find (\<lambda>x. userId x = u \<and> assetType x = a) (accounts s) of
        None \<Rightarrow> Inl (WalletNotFound u)
      | Some acc \<Rightarrow> if \<not> isActive acc then Inl (WalletInactive u) else Inr acc)"

definition getSystemAccount :: "store \<Rightarrow> string \<Rightarrow> oid \<Rightarrow> error + account" where
  "getSystemAccount s u a =
     (case find (\<lambda>x. userId x = u \<and> assetType x = a \<and> accountType x = System) (accounts s) of
        None \<Rightarrow> Inl (SystemAccountNotFound u)
      | Some acc \<Rightarrow> Inr acc)"

record flow_params =
  f_userId :: string
  f_assetCode :: string
  f_amount :: rat
  f_idempotencyKey :: string

datatype flow = TopUp | IssueBonus | SpendFlow

text \<open>
  \<open>topUp\<close>, \<open>issueBonus\<close> and \<open>spend\<close> differ in the system account they resolve, in which
  of the two accounts is the source, and in the type they record.
\<close>

fun systemAccountName :: "flow \<Rightarrow> string" where
  "systemAccountName TopUp = ''SYSTEM_TREASURY''"
| "systemAccountName IssueBonus = ''SYSTEM_BONUS_POOL''"
| "systemAccountName SpendFlow = ''SYSTEM_REVENUE''"

fun flowParams :: "flow \<Rightarrow> flow_params \<Rightarrow> asset_type \<Rightarrow> account \<Rightarrow> account \<Rightarrow> params" where
  "flowParams TopUp q a userAcc sysAcc =
     \<lparr>p_idempotencyKey = f_idempotencyKey q, p_fromAccountId = acc_id sysAcc,
      p_toAccountId = acc_id userAcc, p_assetTypeId = at_id a, p_amount = f_amount q,
      p_type = Topup\<rparr>"
| "flowParams IssueBonus q a userAcc sysAcc =
     \<lparr>p_idempotencyKey = f_idempotencyKey q, p_fromAccountId = acc_id sysAcc,
      p_toAccountId = acc_id userAcc, p_assetTypeId = at_id a, p_amount = f_amount q,
      p_type = Bonus\<rparr>"
| "flowParams SpendFlow q a userAcc sysAcc =
     \<lparr>p_idempotencyKey = f_idempotencyKey q, p_fromAccountId = acc_id userAcc,
      p_toAccountId = acc_id sysAcc, p_assetTypeId = at_id a, p_amount = f_amount q,
      p_type = Spend\<rparr>"

definition runFlow ::
  "flow \<Rightarrow> flow_params \<Rightarrow> store \<Rightarrow> (error + result) \<times> store \<times> acct_op list" where
  "runFlow f q s =
     (case getAssetType s (f_assetCode q) of
        Inl e \<Rightarrow> (Inl e, s, [])
      | Inr a \<Rightarrow>
     (case getUserAccount s (f_userId q) (at_id a) of
        Inl e \<Rightarrow> (Inl e, s, [])
      | Inr userAcc \<Rightarrow>
     (case getSystemAccount s (systemAccountName f) (at_id a) of
        Inl e \<Rightarrow> (Inl e, s, [])
      | Inr sysAcc \<Rightarrow> executeTransfer (flowParams f q a userAcc sysAcc) s)))"

definition topUp :: "flow_params \<Rightarrow> store \<Rightarrow> (error + result) \<times> store \<times> acct_op list" where
  "topUp = runFlow TopUp"

definition issueBonus :: "flow_params \<Rightarrow> store \<Rightarrow> (error + result) \<times> store \<times> acct_op list" where
  "issueBonus = runFlow IssueBonus"

definition spend :: "flow_params \<Rightarrow> store \<Rightarrow> (error + result) \<times> store \<times> acct_op list" where
  "spend = runFlow SpendFlow"

section \<open>Auxiliary definitions\<close>


text \<open>An account with its balance blanked: what a balance update leaves unchanged.\<close>

definition unbalanced :: "account \<Rightarrow> account" where
  "unbalanced a = a\<lparr>balance := 0\<rparr>"

text \<open>The pending document as \<open>Transaction.create\<close> stores it in \<open>s\<close>.\<close>

definition insertedDoc :: "params \<Rightarrow> store \<Rightarrow> transaction" where
  "insertedDoc p s = (pendingDoc p)\<lparr>tx_id := freshId (map tx_id (transactions s))\<rparr>"

subsection \<open>Environments\<close>

text \<open>
  What happens outside the call. An operator (or another service) sets \<open>isActive\<close> to
  false on an account; here this happens between the first and the second balance
  update of the call.
\<close>

definition deactivate :: "oid \<Rightarrow> store \<Rightarrow> store" where
  "deactivate i s =
     s\<lparr>accounts := map (\<lambda>a. if acc_id a = i then a\<lparr>isActive := False\<rparr> else a) (accounts s)\<rparr>"

definition deactivatedBeforeSecondUpdate :: "oid \<Rightarrow> env" where
  "deactivatedBeforeSecondUpdate i k s = (if k = 5 then deactivate i s else s)"

text \<open>
  A concurrent request with the same idempotency key inserts its Transaction after the
  lookup of this call and before its insert. In the second environment that document
  is gone again when the call re-reads after the pause.
\<close>

definition concurrentInsert :: "transaction \<Rightarrow> env" where
  "concurrentInsert t k s = (if k = 2 then s\<lparr>transactions := transactions s @ [t]\<rparr> else s)"

definition concurrentInsertWithdrawn :: "transaction \<Rightarrow> env" where
  "concurrentInsertWithdrawn t k s =
     (if k = 2 then s\<lparr>transactions := transactions s @ [t]\<rparr>
      else if k = 3 then s\<lparr>transactions := filter (\<lambda>x. tx_id x \<noteq> tx_id t) (transactions s)\<rparr>
      else s)"

subsection \<open>The rounding rule of the specification\<close>


subsection \<open>Example data\<close>

text \<open>
  The GOLD part of what src/seed.js creates: the asset type, then the three system
  accounts, then the wallets of alice and bob. ObjectIds grow with creation time, so the
  system accounts have the smaller ids.
\<close>

definition seedStore :: store where
  "seedStore =
     \<lparr>assetTypes = [\<lparr>at_id = ''a1'', code = ''GOLD'', decimalPlaces = 0, at_isActive = True\<rparr>],
      accounts =
        [\<lparr>acc_id = ''c1'', userId = ''SYSTEM_TREASURY'', accountType = System, assetType = ''a1'',
            balance = 10000000, isActive = True\<rparr>,
         \<lparr>acc_id = ''c2'', userId = ''SYSTEM_BONUS_POOL'', accountType = System, assetType = ''a1'',
            balance = 5000000, isActive = True\<rparr>,
         \<lparr>acc_id = ''c3'', userId = ''SYSTEM_REVENUE'', accountType = System, assetType = ''a1'',
            balance = 0, isActive = True\<rparr>,
         \<lparr>acc_id = ''c4'', userId = ''user_alice'', accountType = User, assetType = ''a1'',
            balance = 500, isActive = True\<rparr>,
         \<lparr>acc_id = ''c5'', userId = ''user_bob'', accountType = User, assetType = ''a1'',
            balance = 150, isActive = True\<rparr>],
      transactions = [], ledger = []\<rparr>"

definition bobOverspend :: flow_params where
  "bobOverspend = \<lparr>f_userId = ''user_bob'', f_assetCode = ''GOLD'', f_amount = 200,
                    f_idempotencyKey = ''spend-bob-0001''\<rparr>"

definition aliceTopUp :: flow_params where
  "aliceTopUp = \<lparr>f_userId = ''user_alice'', f_assetCode = ''GOLD'', f_amount = 100,
                  f_idempotencyKey = ''topup-alice-0001''\<rparr>"

definition treasuryTopUp :: flow_params where
  "treasuryTopUp = \<lparr>f_userId = ''SYSTEM_TREASURY'', f_assetCode = ''GOLD'', f_amount = 100,
                     f_idempotencyKey = ''topup-self-0001''\<rparr>"

definition fractionalTopUp :: flow_params where
  "fractionalTopUp = \<lparr>f_userId = ''user_bob'', f_assetCode = ''GOLD'', f_amount = 5 / 2,
                       f_idempotencyKey = ''topup-bob-0001''\<rparr>"

definition bobTopUp :: params where
  "bobTopUp = \<lparr>p_idempotencyKey = ''topup-bob-0002'', p_fromAccountId = ''c1'',
                p_toAccountId = ''c5'', p_assetTypeId = ''a1'', p_amount = 100, p_type = Topup\<rparr>"

definition aliceSpend :: params where
  "aliceSpend = \<lparr>p_idempotencyKey = ''spend-alice-0001'', p_fromAccountId = ''c4'',
                  p_toAccountId = ''c3'', p_assetTypeId = ''a1'', p_amount = 30, p_type = Spend\<rparr>"

definition treasuryToItself :: params where
  "treasuryToItself = \<lparr>p_idempotencyKey = ''topup-self-0002'', p_fromAccountId = ''c1'',
                  p_toAccountId = ''c1'', p_assetTypeId = ''a1'', p_amount = 100, p_type = Topup\<rparr>"

definition racedTx :: transaction where
  "racedTx = \<lparr>tx_id = 1, idempotencyKey = ''topup-bob-0002'', tx_assetType = ''a1'',
               fromAccount = ''c1'', toAccount = ''c5'', amount = 100, txType = Topup,
               status = Pending, ledgerEntries = [], failureReason = None\<rparr>"

definition invalidReplay :: params where
  "invalidReplay = \<lparr>p_idempotencyKey = ''topup-bob-0002'', p_fromAccountId = ''nowhere'',
                  p_toAccountId = ''nowhere'', p_assetTypeId = ''a1'', p_amount = - 5, p_type = Spend\<rparr>"

section \<open>Lemmas about the store primitives\<close>

lemmas store_defs =
  Transaction_findOne_def Account_findById_def Transaction_valid_def Transaction_create_def
  Transaction_save_def Transaction_markFailed_def Account_findOneAndUpdate_def
  LedgerEntry_create_def freshId_def

lemmas engine_defs =
  executeTransfer_def executeTransfer_env_def no_env_def tryBlock_def applyUpdates_def
  createLedgerEntries_def loadAccounts_def pendingDoc_def atomicDebit_def atomicCredit_def Let_def

lemmas flow_defs =
  topUp_def issueBonus_def spend_def runFlow_def getAssetType_def getUserAccount_def
  getSystemAccount_def toUpperCase_def upperChar_def

lemmas example_defs =
  seedStore_def bobOverspend_def aliceTopUp_def treasuryTopUp_def fractionalTopUp_def bobTopUp_def
  racedTx_def concurrentInsert_def concurrentInsertWithdrawn_def
  aliceSpend_def treasuryToItself_def invalidReplay_def

lemmas env_defs = deactivate_def deactivatedBeforeSecondUpdate_def
  concurrentInsert_def concurrentInsertWithdrawn_def

lemma freshId_gt: "i \<in> set ids \<Longrightarrow> i < freshId ids"
proof -
  have mono: "b \<le> fold max xs b" for xs :: "nat list" and b
    by (induction xs arbitrary: b) (auto intro: order_trans[OF max.cobounded2])
  have "i \<in> set ids \<Longrightarrow> i \<le> fold max ids b" for b
  proof (induction ids arbitrary: b)
    case Nil then show ?case by simp
  next
    case (Cons a ids)
    show ?case using Cons mono[of "max a b" ids] by auto
  qed
  then show "i \<in> set ids \<Longrightarrow> i < freshId ids" by (simp add: freshId_def less_Suc_eq_le)
qed

lemma updateFirst_append_fresh:
  "\<forall>x\<in>set xs. \<not> P x \<Longrightarrow> updateFirst P f (xs @ ys) = xs @ updateFirst P f ys"
  by (induction xs) auto

lemma find_append_fresh:
  "\<forall>x\<in>set xs. \<not> P x \<Longrightarrow> find P (xs @ ys) = find P ys"
  by (induction xs) auto

lemma updateFirst_unbalanced:
  "map unbalanced (updateFirst P (\<lambda>x. x\<lparr>balance := balance x + d\<rparr>) xs) = map unbalanced xs"
  by (induction xs) (auto simp: unbalanced_def)

lemma find_id_conj:
  "find (\<lambda>x. acc_id x = i) xs = Some a \<Longrightarrow> Q a \<Longrightarrow> find (\<lambda>x. acc_id x = i \<and> Q x) xs = Some a"
  by (induction xs) (auto split: if_splits)

lemma updateFirst_id_conj:
  "find (\<lambda>x. acc_id x = i) xs = Some a \<Longrightarrow> Q a \<Longrightarrow>
   updateFirst (\<lambda>x. acc_id x = i \<and> Q x) f xs = updateFirst (\<lambda>x. acc_id x = i) f xs"
  by (induction xs) (auto split: if_splits)

lemma find_id_conj_none:
  assumes "find (\<lambda>x. acc_id x = i) xs = Some a" and "\<not> Q a" and "distinct (map acc_id xs)"
  shows "find (\<lambda>x. acc_id x = i \<and> Q x) xs = None"
proof -
  from assms(1) have a: "a \<in> set xs" "acc_id a = i"
    by (auto simp: find_Some_iff)
  from assms(3) have inj: "inj_on acc_id (set xs)" by (simp add: distinct_map)
  have "\<not> (acc_id y = i \<and> Q y)" if "y \<in> set xs" for y
  proof
    assume h: "acc_id y = i \<and> Q y"
    with a that inj have "y = a" by (auto dest: inj_onD)
    with h assms(2) show False by simp
  qed
  then show ?thesis by (simp add: find_None_iff)
qed

lemma find_updateFirst_same:
  "find (\<lambda>x. acc_id x = i) xs = Some a \<Longrightarrow> acc_id (f a) = i \<Longrightarrow>
   find (\<lambda>x. acc_id x = i) (updateFirst (\<lambda>x. acc_id x = i) f xs) = Some (f a)"
  by (induction xs) (auto split: if_splits)

lemma updateFirst_twice:
  "find (\<lambda>x. acc_id x = i) xs = Some a \<Longrightarrow> acc_id (f a) = i \<Longrightarrow>
   updateFirst (\<lambda>x. acc_id x = i) g (updateFirst (\<lambda>x. acc_id x = i) f xs)
     = updateFirst (\<lambda>x. acc_id x = i) (\<lambda>x. g (f x)) xs"
  by (induction xs) (auto split: if_splits)

lemma updateFirst_ident:
  "find P xs = Some a \<Longrightarrow> f a = a \<Longrightarrow> updateFirst P f xs = xs"
  by (induction xs) (auto split: if_splits)

lemma find_map_deactivate:
  "find (\<lambda>x. acc_id x = j) (map (\<lambda>a. if acc_id a = i then a\<lparr>isActive := False\<rparr> else a) xs)
     = map_option (\<lambda>a. if acc_id a = i then a\<lparr>isActive := False\<rparr> else a) (find (\<lambda>x. acc_id x = j) xs)"
  by (induction xs) auto

lemma find_active_deactivated:
  "find (\<lambda>x. acc_id x = i \<and> isActive x) (map (\<lambda>a. if acc_id a = i then a\<lparr>isActive := False\<rparr> else a) xs) = None"
  by (induction xs) simp_all

lemma find_unbalanced:
  assumes "map unbalanced xs = map unbalanced ys" and "\<And>x. Q x = Q (unbalanced x)"
    and "find Q xs = Some a"
  shows "\<exists>b. find Q ys = Some b \<and> unbalanced b = unbalanced a"
  using assms(1,3)
proof (induction xs arbitrary: ys)
  case Nil then show ?case by simp
next
  case (Cons x xs)
  then obtain y ys' where ys: "ys = y # ys'" "unbalanced x = unbalanced y" "map unbalanced xs = map unbalanced ys'"
    by (cases ys) auto
  have q: "Q x = Q y" using assms(2)[of x] assms(2)[of y] ys(2) by simp
  show ?case
  proof (cases "Q x")
    case True with Cons.prems ys q show ?thesis by auto
  next
    case False with Cons ys q show ?thesis by auto
  qed
qed

lemma sort2_hd: "hd (sort [a, b]) = a \<longleftrightarrow> a \<le> (b::string)"
  by auto


lemma findOneAndUpdate_frame:
  assumes "Account_findOneAndUpdate s P d = Some (a, s')"
  shows "assetTypes s' = assetTypes s \<and> transactions s' = transactions s \<and> ledger s' = ledger s
       \<and> map unbalanced (accounts s') = map unbalanced (accounts s)"
  using assms
  by (auto simp: Account_findOneAndUpdate_def updateFirst_unbalanced split: option.splits)

lemma atomicDebit_frame:
  assumes "atomicDebit s acc amt = Inr (a, s')"
  shows "assetTypes s' = assetTypes s \<and> transactions s' = transactions s \<and> ledger s' = ledger s
       \<and> map unbalanced (accounts s') = map unbalanced (accounts s)"
  using assms findOneAndUpdate_frame
  by (fastforce simp: atomicDebit_def split: option.splits)

lemma atomicCredit_frame:
  assumes "atomicCredit s acc amt = Inr (a, s')"
  shows "assetTypes s' = assetTypes s \<and> transactions s' = transactions s \<and> ledger s' = ledger s
       \<and> map unbalanced (accounts s') = map unbalanced (accounts s)"
  using assms findOneAndUpdate_frame
  by (fastforce simp: atomicCredit_def split: option.splits)

lemma atomicDebit_ok:
  assumes "find (\<lambda>x. acc_id x = i) (accounts s) = Some fa" and "isActive fa" and "acc_id fa = i"
    and "amt \<le> balance fa"
  shows "atomicDebit s fa amt =
           Inr (fa\<lparr>balance := balance fa + - amt\<rparr>,
                s\<lparr>accounts := updateFirst (\<lambda>x. acc_id x = i) (\<lambda>x. x\<lparr>balance := balance x + - amt\<rparr>) (accounts s)\<rparr>)"
  using find_id_conj[OF assms(1), of "\<lambda>x. amt \<le> balance x \<and> isActive x"]
        updateFirst_id_conj[OF assms(1), of "\<lambda>x. amt \<le> balance x \<and> isActive x"] assms
  by (simp add: atomicDebit_def Account_findOneAndUpdate_def)

lemma atomicDebit_insufficient:
  assumes "find (\<lambda>x. acc_id x = i) (accounts s) = Some fa" and "acc_id fa = i"
    and "\<not> amt \<le> balance fa" and "distinct (map acc_id (accounts s))"
  shows "atomicDebit s fa amt = Inl (InsufficientBalance (userId fa) (balance fa) amt)"
  using find_id_conj_none[OF assms(1) _ assms(4), of "\<lambda>x. amt \<le> balance x \<and> isActive x"] assms
  by (simp add: atomicDebit_def Account_findOneAndUpdate_def)

lemma atomicCredit_ok:
  assumes "find (\<lambda>x. acc_id x = i) (accounts s) = Some ta" and "isActive ta" and "acc_id ta' = i"
  shows "atomicCredit s ta' amt =
           Inr (ta\<lparr>balance := balance ta + amt\<rparr>,
                s\<lparr>accounts := updateFirst (\<lambda>x. acc_id x = i) (\<lambda>x. x\<lparr>balance := balance x + amt\<rparr>) (accounts s)\<rparr>)"
  using find_id_conj[OF assms(1), of "\<lambda>x. isActive x"]
        updateFirst_id_conj[OF assms(1), of "\<lambda>x. isActive x"] assms
  by (simp add: atomicCredit_def Account_findOneAndUpdate_def)

lemma deactivate_frame [simp]:
  "transactions (deactivate i s) = transactions s"
  "ledger (deactivate i s) = ledger s"
  "assetTypes (deactivate i s) = assetTypes s"
  by (simp_all add: deactivate_def)

lemma atomicCredit_deactivated:
  "acc_id ta = i \<Longrightarrow> atomicCredit (deactivate i s) ta amt = Inl (CreditFailed (userId ta))"
  by (simp add: atomicCredit_def Account_findOneAndUpdate_def deactivate_def find_active_deactivated)

lemma save_appended:
  assumes "transactions s = old @ [t]" and "\<forall>x\<in>set old. tx_id x \<noteq> tx_id t" and "tx_id t' = tx_id t"
  shows "Transaction_save s t' =
           Inr (s\<lparr>transactions := old @ [t\<lparr>status := status t', ledgerEntries := ledgerEntries t'\<rparr>]\<rparr>)"
  using assms
  by (simp add: Transaction_save_def updateFirst_append_fresh find_append_fresh)

lemma markFailed_appended:
  assumes "transactions s = old @ [t]" and "\<forall>x\<in>set old. tx_id x \<noteq> tx_id t"
  shows "Transaction_markFailed s (tx_id t) e =
           s\<lparr>transactions := old @ [t\<lparr>status := Failed, failureReason := Some e\<rparr>]\<rparr>"
  using assms
  by (simp add: Transaction_markFailed_def updateFirst_append_fresh)

lemma create_cases:
  "Transaction_create s (pendingDoc p) =
     (if \<not> Transaction_valid (pendingDoc p) then Inl ValidationError
      else if Transaction_findOne s (p_idempotencyKey p) (p_assetTypeId p) \<noteq> None then Inl DuplicateKey
      else Inr (insertedDoc p s, s\<lparr>transactions := transactions s @ [insertedDoc p s]\<rparr>))"
  by (simp add: Transaction_create_def insertedDoc_def pendingDoc_def Let_def)

lemma insertedDoc_fresh: "\<forall>x\<in>set (transactions s). tx_id x \<noteq> tx_id (insertedDoc p s)"
proof
  fix x assume "x \<in> set (transactions s)"
  then have "tx_id x < freshId (map tx_id (transactions s))"
    by (intro freshId_gt) simp
  then show "tx_id x \<noteq> tx_id (insertedDoc p s)" by (simp add: insertedDoc_def)
qed

lemma insertedDoc_fields [simp]:
  "idempotencyKey (insertedDoc p s) = p_idempotencyKey p"
  "tx_assetType (insertedDoc p s) = p_assetTypeId p"
  "amount (insertedDoc p s) = p_amount p"
  "status (insertedDoc p s) = Pending"
  "ledgerEntries (insertedDoc p s) = []"
  "failureReason (insertedDoc p s) = None"
  "fromAccount (insertedDoc p s) = p_fromAccountId p"
  "toAccount (insertedDoc p s) = p_toAccountId p"
  by (simp_all add: insertedDoc_def pendingDoc_def)

lemma valid_amount: "Transaction_valid (pendingDoc p) \<Longrightarrow> 1 / 1000000 \<le> p_amount p"
  by (simp add: Transaction_valid_def pendingDoc_def)

lemma valid_pos: "Transaction_valid (pendingDoc p) \<Longrightarrow> 0 < p_amount p"
proof -
  assume "Transaction_valid (pendingDoc p)"
  then have "1 / 1000000 \<le> p_amount p" by (rule valid_amount)
  moreover have "(0::rat) < 1 / 1000000" by simp
  ultimately show ?thesis by (rule less_le_trans[rotated])
qed

lemma createLedgerEntries_ok:
  assumes "1 / 1000000 \<le> p_amount p"
  shows "\<exists>d c. createLedgerEntries s p t uf ut =
            (Inr (d, c), s\<lparr>ledger := ledger s @ [d, c]\<rparr>)
          \<and> transactionId d = tx_id t \<and> transactionId c = tx_id t
          \<and> le_account d = p_fromAccountId p \<and> le_account c = p_toAccountId p
          \<and> entryType d = Debit \<and> entryType c = Credit
          \<and> le_amount d = p_amount p \<and> le_amount c = p_amount p
          \<and> balanceAfter d = balance uf \<and> balanceAfter c = balance ut
          \<and> le_id d = freshId (map le_id (ledger s)) \<and> le_id c \<noteq> le_id d"
proof -
  have "freshId (map le_id (ledger s)) < freshId (map le_id (ledger s) @ [freshId (map le_id (ledger s))])"
    by (rule freshId_gt) simp
  then show ?thesis using assms
    by (simp add: createLedgerEntries_def LedgerEntry_create_def Let_def)
qed

section \<open>Lemmas about the transfer engine\<close>

lemma loadAccounts_found:
  assumes "loadAccounts s p = Inr (fa, ta)"
  shows "find (\<lambda>x. acc_id x = p_fromAccountId p) (accounts s) = Some fa"
    and "find (\<lambda>x. acc_id x = p_toAccountId p) (accounts s) = Some ta"
    and "isActive fa" and "isActive ta"
    and "acc_id fa = p_fromAccountId p" and "acc_id ta = p_toAccountId p"
  using assms
  by (auto simp: loadAccounts_def Account_findById_def find_Some_iff split: option.splits if_splits)


lemma applyUpdates_frame:
  assumes "applyUpdates no_env s p fa ta = (r, s', ops)"
  shows "assetTypes s' = assetTypes s \<and> transactions s' = transactions s \<and> ledger s' = ledger s
       \<and> map unbalanced (accounts s') = map unbalanced (accounts s)"
  using assms
  by (auto simp: applyUpdates_def Let_def no_env_def
           split: sum.splits prod.splits if_splits
           dest!: atomicDebit_frame atomicCredit_frame)



lemma applyUpdates_same_account:
  assumes f: "find (\<lambda>x. acc_id x = i) (accounts s) = Some fa" and act: "isActive fa"
    and ids: "acc_id fa = i" "p_fromAccountId p = i" "p_toAccountId p = i"
    and dist: "distinct (map acc_id (accounts s))"
  shows "applyUpdates no_env s p fa fa =
          (if p_amount p \<le> balance fa
           then (Inr (fa\<lparr>balance := balance fa + - p_amount p\<rparr>, fa), s,
                 [OpDebit i (p_amount p), OpCredit i (p_amount p)])
           else (Inl (InsufficientBalance (userId fa) (balance fa) (p_amount p)), s,
                 [OpDebit i (p_amount p)]))"
proof -
  have unf: "applyUpdates no_env s p fa fa =
      (case atomicDebit s fa (p_amount p) of
         Inl e \<Rightarrow> (Inl e, s, [OpDebit i (p_amount p)])
       | Inr (updatedFrom, s4') \<Rightarrow>
           (case atomicCredit s4' fa (p_amount p) of
              Inl e \<Rightarrow> (Inl e, s4', [OpDebit i (p_amount p), OpCredit i (p_amount p)])
            | Inr (updatedTo, s5') \<Rightarrow>
                (Inr (updatedFrom, updatedTo), s5', [OpDebit i (p_amount p), OpCredit i (p_amount p)])))"
    using ids by (auto simp: applyUpdates_def no_env_def Let_def split: sum.splits prod.splits)
  show ?thesis
  proof (cases "p_amount p \<le> balance fa")
    case True
    let ?dec = "\<lambda>x. x\<lparr>balance := balance x + - p_amount p\<rparr>"
    let ?inc = "\<lambda>x. x\<lparr>balance := balance x + p_amount p\<rparr>"
    let ?s1 = "s\<lparr>accounts := updateFirst (\<lambda>x. acc_id x = i) ?dec (accounts s)\<rparr>"
    have d: "atomicDebit s fa (p_amount p) = Inr (?dec fa, ?s1)"
      using atomicDebit_ok[OF f act ids(1) True] .
    have f1: "find (\<lambda>x. acc_id x = i) (accounts ?s1) = Some (?dec fa)"
      using find_updateFirst_same[OF f, of ?dec] ids by simp
    have "updateFirst (\<lambda>x. acc_id x = i) ?inc (accounts ?s1)
            = updateFirst (\<lambda>x. acc_id x = i) (\<lambda>x. ?inc (?dec x)) (accounts s)"
      using updateFirst_twice[OF f, of ?dec ?inc] ids by simp
    also have "\<dots> = accounts s"
      by (rule updateFirst_ident[OF f]) simp
    finally have restored: "updateFirst (\<lambda>x. acc_id x = i) ?inc (accounts ?s1) = accounts s" .
    have c0: "atomicCredit ?s1 fa (p_amount p) =
              Inr (?inc (?dec fa), ?s1\<lparr>accounts := updateFirst (\<lambda>x. acc_id x = i) ?inc (accounts ?s1)\<rparr>)"
      using atomicCredit_ok[OF f1 _ ids(1)] act by simp
    have st: "?s1\<lparr>accounts := updateFirst (\<lambda>x. acc_id x = i) ?inc (accounts ?s1)\<rparr> = s"
      by (simp only: restored) simp
    have ac: "?inc (?dec fa) = fa" by simp
    have c: "atomicCredit ?s1 fa (p_amount p) = Inr (fa, s)"
      by (simp only: c0 st ac)
    show ?thesis by (simp only: unf d c True sum.case prod.case if_True)
  next
    case False
    show ?thesis
      by (simp only: unf atomicDebit_insufficient[OF f ids(1) False dist] False sum.case if_False)
  qed
qed


lemma tryBlock_seq:
  assumes run: "tryBlock no_env s p fa ta t = (r, s', ops)"
    and valid: "1 / 1000000 \<le> p_amount p"
    and tx: "transactions s = old @ [t]" "\<forall>x\<in>set old. tx_id x \<noteq> tx_id t"
  shows "\<exists>r0 s0. applyUpdates no_env s p fa ta = (r0, s0, ops)
       \<and> accounts s' = accounts s0 \<and> assetTypes s' = assetTypes s
       \<and> map unbalanced (accounts s') = map unbalanced (accounts s)
       \<and> ((\<exists>e. r0 = Inl e \<and> r = Inl e \<and> transactions s' = transactions s \<and> ledger s' = ledger s)
         \<or> (\<exists>uf ut d c. r0 = Inr (uf, ut)
               \<and> r = Inr \<lparr>r_transaction = t\<lparr>status := Completed, ledgerEntries := [le_id d, le_id c]\<rparr>,
                            isIdempotentReplay = False\<rparr>
               \<and> transactions s' = old @ [t\<lparr>status := Completed, ledgerEntries := [le_id d, le_id c]\<rparr>]
               \<and> ledger s' = ledger s @ [d, c]
               \<and> transactionId d = tx_id t \<and> transactionId c = tx_id t
               \<and> le_account d = p_fromAccountId p \<and> le_account c = p_toAccountId p
               \<and> entryType d = Debit \<and> entryType c = Credit
               \<and> le_amount d = p_amount p \<and> le_amount c = p_amount p
               \<and> balanceAfter d = balance uf \<and> balanceAfter c = balance ut))"
proof -
  obtain r0 s0 ops0 where a: "applyUpdates no_env s p fa ta = (r0, s0, ops0)"
    by (metis prod_cases3)
  note fr = applyUpdates_frame[OF a]
  show ?thesis
  proof (cases r0)
    case (Inl e)
    with run a fr show ?thesis by (auto simp: tryBlock_def)
  next
    case (Inr u)
    obtain uf ut where u: "u = (uf, ut)" by (cases u)
    from createLedgerEntries_ok[OF valid, of s0 t uf ut]
    obtain d c where cl: "createLedgerEntries s0 p t uf ut = (Inr (d, c), s0\<lparr>ledger := ledger s0 @ [d, c]\<rparr>)"
      and f: "transactionId d = tx_id t" "transactionId c = tx_id t"
         "le_account d = p_fromAccountId p" "le_account c = p_toAccountId p"
         "entryType d = Debit" "entryType c = Credit"
         "le_amount d = p_amount p" "le_amount c = p_amount p"
         "balanceAfter d = balance uf" "balanceAfter c = balance ut"
      by blast
    let ?t' = "t\<lparr>status := Completed, ledgerEntries := [le_id d, le_id c]\<rparr>"
    let ?s6 = "s0\<lparr>ledger := ledger s0 @ [d, c]\<rparr>"
    have txs: "transactions ?s6 = old @ [t]" using fr tx by simp
    have sv: "Transaction_save ?s6 ?t' = Inr (?s6\<lparr>transactions := old @ [?t']\<rparr>)"
      using save_appended[OF txs tx(2), of ?t'] by simp
    from run a Inr u cl sv
    have "r = Inr \<lparr>r_transaction = ?t', isIdempotentReplay = False\<rparr>"
      and "s' = ?s6\<lparr>transactions := old @ [?t']\<rparr>" and "ops = ops0"
      by (simp_all add: tryBlock_def Let_def no_env_def)
    with fr f a Inr u show ?thesis by auto
  qed
qed


lemma executeTransfer_seq:
  assumes run: "executeTransfer p s = (res, s', ops)"
  shows "(\<exists>t. Transaction_findOne s (p_idempotencyKey p) (p_assetTypeId p) = Some t
            \<and> res = Inr \<lparr>r_transaction = t, isIdempotentReplay = True\<rparr> \<and> s' = s \<and> ops = [])
       \<or> (Transaction_findOne s (p_idempotencyKey p) (p_assetTypeId p) = None
            \<and> s' = s \<and> ops = []
            \<and> (p_amount p \<le> 0 \<and> res = Inl InvalidAmount
               \<or> 0 < p_amount p \<and> (\<exists>e. loadAccounts s p = Inl e \<and> res = Inl e)
               \<or> 0 < p_amount p \<and> (\<exists>u. loadAccounts s p = Inr u)
                   \<and> \<not> Transaction_valid (pendingDoc p) \<and> res = Inl ValidationError))
       \<or> (Transaction_findOne s (p_idempotencyKey p) (p_assetTypeId p) = None
            \<and> 0 < p_amount p \<and> Transaction_valid (pendingDoc p)
            \<and> assetTypes s' = assetTypes s
            \<and> map unbalanced (accounts s') = map unbalanced (accounts s)
            \<and> (\<exists>fa ta r0 s0. loadAccounts s p = Inr (fa, ta)
                \<and> applyUpdates no_env (s\<lparr>transactions := transactions s @ [insertedDoc p s]\<rparr>) p fa ta
                     = (r0, s0, ops)
                \<and> accounts s' = accounts s0
                \<and> ((\<exists>e. r0 = Inl e \<and> res = Inl e \<and> ledger s' = ledger s
                      \<and> transactions s' = transactions s @
                            [(insertedDoc p s)\<lparr>status := Failed, failureReason := Some e\<rparr>])
                  \<or> (\<exists>uf ut d c. r0 = Inr (uf, ut)
                      \<and> res = Inr \<lparr>r_transaction =
                                    (insertedDoc p s)\<lparr>status := Completed, ledgerEntries := [le_id d, le_id c]\<rparr>,
                                  isIdempotentReplay = False\<rparr>
                      \<and> transactions s' = transactions s @
                            [(insertedDoc p s)\<lparr>status := Completed, ledgerEntries := [le_id d, le_id c]\<rparr>]
                      \<and> ledger s' = ledger s @ [d, c]
                      \<and> transactionId d = tx_id (insertedDoc p s) \<and> transactionId c = tx_id (insertedDoc p s)
                      \<and> le_account d = p_fromAccountId p \<and> le_account c = p_toAccountId p
                      \<and> entryType d = Debit \<and> entryType c = Credit
                      \<and> le_amount d = p_amount p \<and> le_amount c = p_amount p
                      \<and> balanceAfter d = balance uf \<and> balanceAfter c = balance ut))))"
proof (cases "Transaction_findOne s (p_idempotencyKey p) (p_assetTypeId p)")
  case (Some t)
  with run show ?thesis
    by (simp add: executeTransfer_def executeTransfer_env_def no_env_def)
next
  case None
  note miss = None
  show ?thesis
  proof (cases "p_amount p \<le> 0")
    case True
    with run miss show ?thesis
      by (auto simp: executeTransfer_def executeTransfer_env_def no_env_def)
  next
    case False
    then have pos: "0 < p_amount p" by simp
    show ?thesis
    proof (cases "loadAccounts s p")
      case (Inl e)
      with run miss pos show ?thesis
        by (auto simp: executeTransfer_def executeTransfer_env_def no_env_def)
    next
      case (Inr u)
      note load = Inr
      obtain fa ta where u: "u = (fa, ta)" by (cases u)
      show ?thesis
      proof (cases "Transaction_valid (pendingDoc p)")
        case False
        with run miss pos load u show ?thesis
          by (auto simp: executeTransfer_def executeTransfer_env_def no_env_def create_cases)
      next
        case True
        let ?t = "insertedDoc p s"
        let ?s2 = "s\<lparr>transactions := transactions s @ [?t]\<rparr>"
        obtain r1 s1 ops1 where tb: "tryBlock no_env ?s2 p fa ta ?t = (r1, s1, ops1)"
          by (metis prod_cases3)
        have txs: "transactions ?s2 = transactions s @ [?t]" by simp
        from tryBlock_seq[OF tb valid_amount[OF True] txs insertedDoc_fresh]
        obtain r0 s0 where au: "applyUpdates no_env ?s2 p fa ta = (r0, s0, ops1)"
          and fr: "accounts s1 = accounts s0" "assetTypes s1 = assetTypes ?s2"
             "map unbalanced (accounts s1) = map unbalanced (accounts ?s2)"
          and alt: "(\<exists>e. r0 = Inl e \<and> r1 = Inl e \<and> transactions s1 = transactions ?s2 \<and> ledger s1 = ledger ?s2)
         \<or> (\<exists>uf ut d c. r0 = Inr (uf, ut)
               \<and> r1 = Inr \<lparr>r_transaction = ?t\<lparr>status := Completed, ledgerEntries := [le_id d, le_id c]\<rparr>,
                            isIdempotentReplay = False\<rparr>
               \<and> transactions s1 = transactions s @ [?t\<lparr>status := Completed, ledgerEntries := [le_id d, le_id c]\<rparr>]
               \<and> ledger s1 = ledger ?s2 @ [d, c]
               \<and> transactionId d = tx_id ?t \<and> transactionId c = tx_id ?t
               \<and> le_account d = p_fromAccountId p \<and> le_account c = p_toAccountId p
               \<and> entryType d = Debit \<and> entryType c = Credit
               \<and> le_amount d = p_amount p \<and> le_amount c = p_amount p
               \<and> balanceAfter d = balance uf \<and> balanceAfter c = balance ut)"
          by blast
        from alt show ?thesis
        proof (elim disjE exE conjE)
          fix e assume e: "r0 = Inl e" "r1 = Inl e" "transactions s1 = transactions ?s2" "ledger s1 = ledger ?s2"
          have mf: "Transaction_markFailed s1 (tx_id ?t) e =
                      s1\<lparr>transactions := transactions s @ [?t\<lparr>status := Failed, failureReason := Some e\<rparr>]\<rparr>"
            using e by (intro markFailed_appended insertedDoc_fresh) simp
          from run miss pos load u True tb e
          have "res = Inl e" and "s' = Transaction_markFailed s1 (tx_id ?t) e" and "ops = ops1"
            by (simp_all add: executeTransfer_def executeTransfer_env_def no_env_def create_cases)
          with mf fr e miss pos load u True au show ?thesis by auto
        next
          fix uf ut d c
          assume c: "r0 = Inr (uf, ut)"
            "r1 = Inr \<lparr>r_transaction = ?t\<lparr>status := Completed, ledgerEntries := [le_id d, le_id c]\<rparr>,
                            isIdempotentReplay = False\<rparr>"
            "transactions s1 = transactions s @ [?t\<lparr>status := Completed, ledgerEntries := [le_id d, le_id c]\<rparr>]"
            "ledger s1 = ledger ?s2 @ [d, c]"
            "transactionId d = tx_id ?t" "transactionId c = tx_id ?t"
            "le_account d = p_fromAccountId p" "le_account c = p_toAccountId p"
            "entryType d = Debit" "entryType c = Credit"
            "le_amount d = p_amount p" "le_amount c = p_amount p"
            "balanceAfter d = balance uf" "balanceAfter c = balance ut"
          from run miss pos load u True tb c(2)
          have "res = r1" and "s' = s1" and "ops = ops1"
            by (simp_all add: executeTransfer_def executeTransfer_env_def no_env_def create_cases)
          with fr c miss pos load u True au show ?thesis by auto
        qed
      qed
    qed
  qed
qed

text \<open>
  A first execution that ends with the insufficient-balance error. When the source id
  does not sort after the destination id, only the refused debit was issued and the
  accounts and the ledger are as before. When the destination id sorts first, the credit
  was issued before the refused debit and stays applied: the accounts after the call are
  the accounts before it with the destination credited.
\<close>

lemma applyUpdates_in_order_insufficient:
  assumes "applyUpdates no_env s p fa ta = (Inl (InsufficientBalance u b a), s0, ops)"
    and "p_fromAccountId p \<le> p_toAccountId p"
  shows "s0 = s \<and> ops = [OpDebit (acc_id fa) (p_amount p)]"
  using assms
  by (auto simp: applyUpdates_def Let_def no_env_def sort2_hd atomicCredit_def atomicDebit_def
           split: sum.splits prod.splits option.splits)

lemma failed_debit_in_order_changes_nothing:
  assumes run: "executeTransfer p s = (Inl (InsufficientBalance u b a), s', ops)"
    and order: "p_fromAccountId p \<le> p_toAccountId p"
  shows "accounts s' = accounts s \<and> ledger s' = ledger s
       \<and> ops = [OpDebit (p_fromAccountId p) (p_amount p)]"
  using executeTransfer_seq[OF run]
proof (elim disjE exE conjE, goal_cases)
  case (1 t) then show ?case by simp
next
  case 2 then show ?case by simp
next
  case (3 e) then show ?case
    by (auto simp: loadAccounts_def split: option.splits if_splits)
next
  case (4 v) then show ?case by simp
next
  case (5 fa ta r0 s0 e)
  then have a: "applyUpdates no_env (s\<lparr>transactions := transactions s @ [insertedDoc p s]\<rparr>) p fa ta
                  = (Inl (InsufficientBalance u b a), s0, ops)" by simp
  from applyUpdates_in_order_insufficient[OF a order] 5 loadAccounts_found(5)[OF 5(6)]
  show ?case by simp
next
  case (6 fa ta r0 s0 uf ut d c) then show ?case by simp
qed


lemma applyUpdates_out_of_order_insufficient:
  assumes run: "applyUpdates no_env s p fa ta = (Inl (InsufficientBalance u b a), s0, ops)"
    and order: "p_toAccountId p < p_fromAccountId p"
    and f: "find (\<lambda>x. acc_id x = p_toAccountId p) (accounts s) = Some ta"
    and act: "isActive ta" and ids: "acc_id ta = p_toAccountId p" "acc_id fa = p_fromAccountId p"
  shows "s0 = s\<lparr>accounts := updateFirst (\<lambda>x. acc_id x = p_toAccountId p)
                                (\<lambda>x. x\<lparr>balance := balance x + p_amount p\<rparr>) (accounts s)\<rparr>
       \<and> ops = [OpCredit (p_toAccountId p) (p_amount p), OpDebit (p_fromAccountId p) (p_amount p)]"
proof -
  have no: "\<not> p_fromAccountId p \<le> p_toAccountId p" "p_toAccountId p \<noteq> p_fromAccountId p"
    using order by simp_all
  note c = atomicCredit_ok[OF f act ids(1), of "p_amount p"]
  from run show ?thesis
    by (auto simp: applyUpdates_def Let_def no_env_def sort2_hd no c ids
             split: sum.splits prod.splits)
qed

lemma failed_debit_out_of_order_keeps_credit:
  assumes run: "executeTransfer p s = (Inl (InsufficientBalance u b a), s', ops)"
    and order: "p_toAccountId p < p_fromAccountId p"
  shows "accounts s' = updateFirst (\<lambda>x. acc_id x = p_toAccountId p)
                         (\<lambda>x. x\<lparr>balance := balance x + p_amount p\<rparr>) (accounts s)
       \<and> ledger s' = ledger s
       \<and> ops = [OpCredit (p_toAccountId p) (p_amount p), OpDebit (p_fromAccountId p) (p_amount p)]"
  using executeTransfer_seq[OF run]
proof (elim disjE exE conjE, goal_cases)
  case (1 t) then show ?case by simp
next
  case 2 then show ?case by simp
next
  case (3 e) then show ?case
    by (auto simp: loadAccounts_def split: option.splits if_splits)
next
  case (4 v) then show ?case by simp
next
  case (5 fa ta r0 s0 e)
  let ?s2 = "s\<lparr>transactions := transactions s @ [insertedDoc p s]\<rparr>"
  note lf = loadAccounts_found[OF 5(6)]
  from 5 have a: "applyUpdates no_env ?s2 p fa ta = (Inl (InsufficientBalance u b a), s0, ops)"
    by simp
  have f: "find (\<lambda>x. acc_id x = p_toAccountId p) (accounts ?s2) = Some ta" using lf(2) by simp
  from applyUpdates_out_of_order_insufficient[OF a order f lf(4) lf(6) lf(5)] 5
  show ?case by simp
next
  case (6 fa ta r0 s0 uf ut d c) then show ?case by simp
qed

lemma findOne_appended:
  assumes "Transaction_findOne s k a = None" and "idempotencyKey t = k" and "tx_assetType t = a"
    and "transactions s' = transactions s @ [t]"
  shows "Transaction_findOne s' k a = Some t"
proof -
  have "\<forall>x\<in>set (transactions s). \<not> (idempotencyKey x = k \<and> tx_assetType x = a)"
    using assms(1) by (simp add: Transaction_findOne_def find_None_iff)
  then show ?thesis using assms(2-4)
    by (simp add: Transaction_findOne_def find_append_fresh)
qed

lemma executeTransfer_recorded:
  assumes run: "executeTransfer p s = (res, s', ops)"
    and made: "(\<exists>r. res = Inr r) \<or> transactions s' \<noteq> transactions s"
  shows "\<exists>t. Transaction_findOne s' (p_idempotencyKey p) (p_assetTypeId p) = Some t
           \<and> (\<forall>r. res = Inr r \<longrightarrow> r_transaction r = t)
           \<and> assetTypes s' = assetTypes s
           \<and> map unbalanced (accounts s') = map unbalanced (accounts s)"
  using executeTransfer_seq[OF run]
proof (elim disjE exE conjE, goal_cases)
  case (1 t) then show ?case by simp
next
  case 2 with made show ?case by simp
next
  case (3 e) with made show ?case by simp
next
  case (4 u) with made show ?case by simp
next
  case (5 fa ta r0 s0 e)
  let ?t = "(insertedDoc p s)\<lparr>status := Failed, failureReason := Some e\<rparr>"
  have "Transaction_findOne s' (p_idempotencyKey p) (p_assetTypeId p) = Some ?t"
    by (rule findOne_appended[OF 5(1) _ _ 5(12)]) simp_all
  with 5 show ?case by simp
next
  case (6 fa ta r0 s0 uf ut d c)
  let ?t = "(insertedDoc p s)\<lparr>status := Completed, ledgerEntries := [le_id d, le_id c]\<rparr>"
  have "Transaction_findOne s' (p_idempotencyKey p) (p_assetTypeId p) = Some ?t"
    by (rule findOne_appended[OF 6(1) _ _ 6(11)]) simp_all
  with 6 show ?case by simp
qed

lemma getUserAccount_stable:
  assumes "map unbalanced (accounts s') = map unbalanced (accounts s)"
    and "getUserAccount s u a = Inr x"
  shows "\<exists>x'. getUserAccount s' u a = Inr x'"
proof -
  let ?Q = "\<lambda>x. userId x = u \<and> assetType x = a"
  from assms(2) have f: "find ?Q (accounts s) = Some x" and act: "isActive x"
    by (auto simp: getUserAccount_def split: option.splits if_splits)
  have "\<exists>b. find ?Q (accounts s') = Some b \<and> unbalanced b = unbalanced x"
    by (rule find_unbalanced[OF assms(1)[symmetric] _ f]) (simp add: unbalanced_def)
  then obtain b where b: "find ?Q (accounts s') = Some b" "unbalanced b = unbalanced x" by blast
  then have "isActive b = isActive x"
    by (metis (no_types) unbalanced_def account.select_convs(6) account.surjective account.update_convs(5))
  with b act show ?thesis by (simp add: getUserAccount_def)
qed

lemma getSystemAccount_stable:
  assumes "map unbalanced (accounts s') = map unbalanced (accounts s)"
    and "getSystemAccount s u a = Inr x"
  shows "\<exists>x'. getSystemAccount s' u a = Inr x'"
proof -
  let ?Q = "\<lambda>x. userId x = u \<and> assetType x = a \<and> accountType x = System"
  from assms(2) have f: "find ?Q (accounts s) = Some x"
    by (auto simp: getSystemAccount_def split: option.splits if_splits)
  have "\<exists>b. find ?Q (accounts s') = Some b \<and> unbalanced b = unbalanced x"
    by (rule find_unbalanced[OF assms(1)[symmetric] _ f]) (simp add: unbalanced_def)
  then show ?thesis by (auto simp: getSystemAccount_def)
qed

lemma flowParams_key [simp]:
  "p_idempotencyKey (flowParams f q a ua sa) = f_idempotencyKey q"
  "p_assetTypeId (flowParams f q a ua sa) = at_id a"
  by (cases f; simp)+

section \<open>Claims\<close>

subsection \<open>C1: a failed debit and the credit of the destination\<close>

text \<open>
  C1. When the conditional debit fails, the transfer should fail with InsufficientBalance
  with no credit performed: both balances as they were, no ledger entries.
  The source performs the credit first whenever the destination id sorts before the
  source id, and does not undo it when the debit then fails. With the seeded accounts
  this is every \<open>spend\<close>: bob has 150 and spends 200; the call fails with
  InsufficientBalance, no ledger entry is written, and SYSTEM_REVENUE has gone from 0
  to 200. The lemmas \<open>failed_debit_in_order_changes_nothing\<close> and
  \<open>failed_debit_out_of_order_keeps_credit\<close> give the two cases in general.
\<close>

theorem credit_lands_before_failed_debit:
  "fst (spend bobOverspend seedStore) = Inl (InsufficientBalance ''user_bob'' 150 200)
   \<and> map balance (accounts seedStore) = [10000000, 5000000, 0, 500, 150]
   \<and> map balance (accounts (fst (snd (spend bobOverspend seedStore)))) = [10000000, 5000000, 200, 500, 150]
   \<and> ledger (fst (snd (spend bobOverspend seedStore))) = []
   \<and> snd (snd (spend bobOverspend seedStore)) = [OpCredit ''c3'' 200, OpDebit ''c5'' 200]"
  by (simp add: store_defs engine_defs flow_defs example_defs)

subsection \<open>C2: a failed credit after the debit has landed\<close>

text \<open>
  C2, as stated: when the credit of the destination fails after the debit has landed, the
  engine re-adds the amount to the source. It does not. In the seeded store, a top-up of
  100 for bob whose wallet is deactivated between the two updates fails with the credit
  error, the Transaction is left failed, the only updates issued are the debit and the
  refused credit, and SYSTEM_TREASURY stays at 9999900.
\<close>

theorem compensation_counterexample:
  "fst (executeTransfer_env (deactivatedBeforeSecondUpdate ''c5'') bobTopUp seedStore)
     = Inl (CreditFailed ''user_bob'')
   \<and> map balance (accounts seedStore) = [10000000, 5000000, 0, 500, 150]
   \<and> map balance (accounts (fst (snd (executeTransfer_env (deactivatedBeforeSecondUpdate ''c5'') bobTopUp seedStore))))
       = [9999900, 5000000, 0, 500, 150]
   \<and> map status (transactions (fst (snd (executeTransfer_env (deactivatedBeforeSecondUpdate ''c5'') bobTopUp seedStore))))
       = [Failed]
   \<and> snd (snd (executeTransfer_env (deactivatedBeforeSecondUpdate ''c5'') bobTopUp seedStore))
       = [OpDebit ''c1'' 100, OpCredit ''c5'' 100]"
  by (simp add: store_defs engine_defs example_defs env_defs)

text \<open>
  C2, amended: on a first execution with valid input whose source id does not sort after
  the destination id and whose source balance covers the amount, if the destination is
  deactivated between the debit and the credit, the call fails with the credit error
  after issuing exactly the debit and the refused credit; the Transaction is left failed
  with that error as its reason, no ledger entry is written, and the source balance
  stays lowered by the amount.
\<close>

theorem credit_failure_not_compensated:
  assumes miss: "Transaction_findOne s (p_idempotencyKey p) (p_assetTypeId p) = None"
    and valid: "Transaction_valid (pendingDoc p)"
    and load: "loadAccounts s p = Inr (fa, ta)"
    and order: "p_fromAccountId p \<le> p_toAccountId p"
    and suff: "p_amount p \<le> balance fa"
  shows "\<exists>s'. executeTransfer_env (deactivatedBeforeSecondUpdate (p_toAccountId p)) p s =
            (Inl (CreditFailed (userId ta)), s',
             [OpDebit (p_fromAccountId p) (p_amount p), OpCredit (p_toAccountId p) (p_amount p)])
          \<and> map_option balance (Account_findById s' (p_fromAccountId p)) = Some (balance fa - p_amount p)
          \<and> transactions s' = transactions s @
               [(insertedDoc p s)\<lparr>status := Failed, failureReason := Some (CreditFailed (userId ta))\<rparr>]
          \<and> ledger s' = ledger s"
proof -
  let ?ev = "deactivatedBeforeSecondUpdate (p_toAccountId p)"
  let ?t = "insertedDoc p s"
  let ?s2 = "s\<lparr>transactions := transactions s @ [?t]\<rparr>"
  let ?dec = "\<lambda>x. x\<lparr>balance := balance x - p_amount p\<rparr>"
  let ?sd = "?s2\<lparr>accounts := updateFirst (\<lambda>x. acc_id x = p_fromAccountId p) ?dec (accounts ?s2)\<rparr>"
  let ?e = "CreditFailed (userId ta)"
  let ?ops = "[OpDebit (p_fromAccountId p) (p_amount p), OpCredit (p_toAccountId p) (p_amount p)]"
  let ?s' = "Transaction_markFailed (deactivate (p_toAccountId p) ?sd) (tx_id ?t) ?e"
  note lf = loadAccounts_found[OF load]
  have f2: "find (\<lambda>x. acc_id x = p_fromAccountId p) (accounts ?s2) = Some fa" using lf(1) by simp
  have d: "atomicDebit ?s2 fa (p_amount p) = Inr (?dec fa, ?sd)"
    using atomicDebit_ok[OF f2 lf(3) lf(5) suff] by simp
  have au: "applyUpdates ?ev ?s2 p fa ta = (Inl ?e, deactivate (p_toAccountId p) ?sd, ?ops)"
    using order lf(5,6)
    by (simp add: applyUpdates_def Let_def sort2_hd deactivatedBeforeSecondUpdate_def d atomicCredit_deactivated)
  have tb: "tryBlock ?ev ?s2 p fa ta ?t = (Inl ?e, deactivate (p_toAccountId p) ?sd, ?ops)"
    by (simp add: tryBlock_def au)
  have run: "executeTransfer_env ?ev p s = (Inl ?e, ?s', ?ops)"
    using miss valid valid_pos[OF valid] load
    by (simp add: executeTransfer_env_def Let_def deactivatedBeforeSecondUpdate_def create_cases tb)
  have txs: "transactions (deactivate (p_toAccountId p) ?sd) = transactions s @ [?t]" by simp
  have mf: "?s' = (deactivate (p_toAccountId p) ?sd)
               \<lparr>transactions := transactions s @ [?t\<lparr>status := Failed, failureReason := Some ?e\<rparr>]\<rparr>"
    by (rule markFailed_appended[OF txs insertedDoc_fresh])
  have fd: "find (\<lambda>x. acc_id x = p_fromAccountId p)
              (updateFirst (\<lambda>x. acc_id x = p_fromAccountId p) ?dec (accounts s)) = Some (?dec fa)"
    using find_updateFirst_same[OF lf(1), of ?dec] lf(5) by simp
  have accs: "accounts ?s' = map (\<lambda>a. if acc_id a = p_toAccountId p then a\<lparr>isActive := False\<rparr> else a)
                 (updateFirst (\<lambda>x. acc_id x = p_fromAccountId p) ?dec (accounts s))"
    by (simp add: Transaction_markFailed_def deactivate_def)
  have bal: "map_option balance (Account_findById ?s' (p_fromAccountId p)) = Some (balance fa - p_amount p)"
    unfolding Account_findById_def accs find_map_deactivate fd by simp
  from run bal mf show ?thesis by simp
qed

theorem credit_failure_not_compensated_witness:
  "\<exists>s'. executeTransfer_env (deactivatedBeforeSecondUpdate ''c5'') bobTopUp seedStore =
            (Inl (CreditFailed ''user_bob''), s', [OpDebit ''c1'' 100, OpCredit ''c5'' 100])
        \<and> map_option balance (Account_findById s' ''c1'') = Some 9999900
        \<and> ledger s' = []"
proof -
  have miss: "Transaction_findOne seedStore (p_idempotencyKey bobTopUp) (p_assetTypeId bobTopUp) = None"
    by (simp add: store_defs example_defs)
  have valid: "Transaction_valid (pendingDoc bobTopUp)"
    by (simp add: store_defs engine_defs example_defs)
  have "\<exists>fa ta. loadAccounts seedStore bobTopUp = Inr (fa, ta)
           \<and> balance fa = 10000000 \<and> userId ta = ''user_bob''"
    by (simp add: store_defs engine_defs example_defs)
  then obtain fa ta where load: "loadAccounts seedStore bobTopUp = Inr (fa, ta)"
    and v: "balance fa = 10000000" "userId ta = ''user_bob''" by blast
  have order: "p_fromAccountId bobTopUp \<le> p_toAccountId bobTopUp"
    by (simp add: example_defs)
  have suff: "p_amount bobTopUp \<le> balance fa"
    by (simp add: v example_defs)
  have ids: "p_fromAccountId bobTopUp = ''c1''" "p_toAccountId bobTopUp = ''c5''"
    "p_amount bobTopUp = 100" "ledger seedStore = []"
    by (simp_all add: example_defs)
  from credit_failure_not_compensated[OF miss valid load order suff]
  show ?thesis unfolding ids v by auto
qed

subsection \<open>C3: replay of a flow\<close>

text \<open>
  C3. When a call of a flow has returned a Transaction, or has failed after storing one,
  a second call of the same flow with the same user, asset code and idempotency key and
  with any amount returns that stored Transaction with \<open>isIdempotentReplay = true\<close>; the
  store after the second call is the store before it (no Transaction, no ledger entry,
  no balance changes), and no balance update is issued.
\<close>

theorem idempotent_replay:
  assumes run: "runFlow f q s = (res, s', ops)"
    and made: "(\<exists>r. res = Inr r) \<or> transactions s' \<noteq> transactions s"
  shows "\<exists>t. runFlow f (q\<lparr>f_amount := a'\<rparr>) s' =
                (Inr \<lparr>r_transaction = t, isIdempotentReplay = True\<rparr>, s', [])
           \<and> t \<in> set (transactions s')
           \<and> (\<forall>r. res = Inr r \<longrightarrow> r_transaction r = t)"
proof -
  from run made obtain a ua sa where
    g: "getAssetType s (f_assetCode q) = Inr a"
       "getUserAccount s (f_userId q) (at_id a) = Inr ua"
       "getSystemAccount s (systemAccountName f) (at_id a) = Inr sa"
       "executeTransfer (flowParams f q a ua sa) s = (res, s', ops)"
    by (auto simp: runFlow_def split: sum.splits)
  from executeTransfer_recorded[OF g(4) made]
  obtain t where st: "Transaction_findOne s' (f_idempotencyKey q) (at_id a) = Some t"
    and same: "\<forall>r. res = Inr r \<longrightarrow> r_transaction r = t"
    and at: "assetTypes s' = assetTypes s"
    and ac: "map unbalanced (accounts s') = map unbalanced (accounts s)" by auto
  have g1: "getAssetType s' (f_assetCode q) = Inr a" using g(1) at by (simp add: getAssetType_def)
  obtain ua' where g2: "getUserAccount s' (f_userId q) (at_id a) = Inr ua'"
    using getUserAccount_stable[OF ac g(2)] by blast
  obtain sa' where g3: "getSystemAccount s' (systemAccountName f) (at_id a) = Inr sa'"
    using getSystemAccount_stable[OF ac g(3)] by blast
  have r2: "runFlow f (q\<lparr>f_amount := a'\<rparr>) s' =
              (Inr \<lparr>r_transaction = t, isIdempotentReplay = True\<rparr>, s', [])"
    using g1 g2 g3 st
    by (simp add: runFlow_def executeTransfer_def executeTransfer_env_def no_env_def)
  have "t \<in> set (transactions s')"
    using st by (auto simp: Transaction_findOne_def find_Some_iff)
  with r2 same show ?thesis by blast
qed

theorem idempotent_replay_witness:
  "\<exists>r s' ops. runFlow TopUp aliceTopUp seedStore = (Inr r, s', ops)
      \<and> \<not> isIdempotentReplay r
      \<and> runFlow TopUp (aliceTopUp\<lparr>f_amount := 999\<rparr>) s' =
           (Inr \<lparr>r_transaction = r_transaction r, isIdempotentReplay = True\<rparr>, s', [])"
proof -
  have "\<exists>r s' ops. runFlow TopUp aliceTopUp seedStore = (Inr r, s', ops) \<and> \<not> isIdempotentReplay r"
    by (simp add: store_defs engine_defs flow_defs example_defs)
  then obtain r s' ops where e: "runFlow TopUp aliceTopUp seedStore = (Inr r, s', ops)"
    and fresh: "\<not> isIdempotentReplay r" by blast
  have made: "(\<exists>x. (Inr r :: error + result) = Inr x) \<or> transactions s' \<noteq> transactions seedStore"
    by simp
  from idempotent_replay[OF e made, of 999] e fresh show ?thesis by auto
qed

subsection \<open>C4: the insert loses the race\<close>

text \<open>
  C4. When the call reaches the insert of its pending Transaction and the insert is
  refused with a duplicate-key error, the call pauses (environment point 3 stands for
  the 50 ms), reads again by the same key and asset type, and returns what it finds with
  \<open>isIdempotentReplay = true\<close>, or fails with TransactionConflict when it finds nothing.
  The store it leaves is what the environment made of it: the call has written nothing
  and has issued no balance update.
\<close>

theorem duplicate_key_race:
  assumes miss: "Transaction_findOne (ev 0 s) (p_idempotencyKey p) (p_assetTypeId p) = None"
    and pos: "0 < p_amount p"
    and load: "loadAccounts (ev 1 (ev 0 s)) p = Inr u"
    and dup: "Transaction_create (ev 2 (ev 1 (ev 0 s))) (pendingDoc p) = Inl DuplicateKey"
  shows "executeTransfer_env ev p s =
          ((case Transaction_findOne (ev 3 (ev 2 (ev 1 (ev 0 s)))) (p_idempotencyKey p) (p_assetTypeId p) of
              Some raced \<Rightarrow> Inr \<lparr>r_transaction = raced, isIdempotentReplay = True\<rparr>
            | None \<Rightarrow> Inl TransactionConflict),
           ev 3 (ev 2 (ev 1 (ev 0 s))), [])"
  using assms
  by (cases u) (simp add: executeTransfer_env_def Let_def split: option.splits)

theorem duplicate_key_race_witness:
  "executeTransfer_env (concurrentInsert racedTx) bobTopUp seedStore =
     (Inr \<lparr>r_transaction = racedTx, isIdempotentReplay = True\<rparr>,
      seedStore\<lparr>transactions := [racedTx]\<rparr>, [])
   \<and> executeTransfer_env (concurrentInsertWithdrawn racedTx) bobTopUp seedStore =
     (Inl TransactionConflict, seedStore, [])"
proof -
  let ?e1 = "concurrentInsert racedTx" and ?e2 = "concurrentInsertWithdrawn racedTx"
  have pos: "0 < p_amount bobTopUp" by (simp add: example_defs)
  have m1: "Transaction_findOne (?e1 0 seedStore) (p_idempotencyKey bobTopUp) (p_assetTypeId bobTopUp) = None"
    and m2: "Transaction_findOne (?e2 0 seedStore) (p_idempotencyKey bobTopUp) (p_assetTypeId bobTopUp) = None"
    by (simp_all add: store_defs example_defs)
  have "\<exists>u. loadAccounts (?e1 1 (?e1 0 seedStore)) bobTopUp = Inr u"
    by (simp add: store_defs engine_defs example_defs)
  then obtain u1 where l1: "loadAccounts (?e1 1 (?e1 0 seedStore)) bobTopUp = Inr u1" ..
  have "\<exists>u. loadAccounts (?e2 1 (?e2 0 seedStore)) bobTopUp = Inr u"
    by (simp add: store_defs engine_defs example_defs)
  then obtain u2 where l2: "loadAccounts (?e2 1 (?e2 0 seedStore)) bobTopUp = Inr u2" ..
  have d1: "Transaction_create (?e1 2 (?e1 1 (?e1 0 seedStore))) (pendingDoc bobTopUp) = Inl DuplicateKey"
    and d2: "Transaction_create (?e2 2 (?e2 1 (?e2 0 seedStore))) (pendingDoc bobTopUp) = Inl DuplicateKey"
    by (simp_all add: store_defs engine_defs example_defs)
  have s1: "?e1 3 (?e1 2 (?e1 1 (?e1 0 seedStore))) = seedStore\<lparr>transactions := [racedTx]\<rparr>"
    and s2: "?e2 3 (?e2 2 (?e2 1 (?e2 0 seedStore))) = seedStore"
    by (simp_all add: example_defs)
  have f1: "Transaction_findOne (seedStore\<lparr>transactions := [racedTx]\<rparr>)
              (p_idempotencyKey bobTopUp) (p_assetTypeId bobTopUp) = Some racedTx"
    and f2: "Transaction_findOne seedStore (p_idempotencyKey bobTopUp) (p_assetTypeId bobTopUp) = None"
    by (simp_all add: store_defs example_defs)
  from duplicate_key_race[OF m1 pos l1 d1] duplicate_key_race[OF m2 pos l2 d2]
  show ?thesis unfolding s1 s2 f1 f2 by simp
qed

subsection \<open>C5: the states of a Transaction\<close>



subsection \<open>C6: a transfer from an account to itself\<close>

text \<open>
  C6, as stated: a call with \<open>fromAccountId\<close> equal to \<open>toAccountId\<close> is rejected before the
  pending Transaction is inserted. The source has no such check. A top-up whose user id
  is SYSTEM_TREASURY resolves both accounts to the treasury account; it completes, with
  one Transaction and two ledger entries on that account.
\<close>

theorem self_transfer_counterexample:
  "fst (topUp treasuryTopUp seedStore) =
     Inr \<lparr>r_transaction =
            \<lparr>tx_id = 1, idempotencyKey = ''topup-self-0001'', tx_assetType = ''a1'',
             fromAccount = ''c1'', toAccount = ''c1'', amount = 100, txType = Topup,
             status = Completed, ledgerEntries = [1, 2], failureReason = None\<rparr>,
          isIdempotentReplay = False\<rparr>
   \<and> length (transactions (fst (snd (topUp treasuryTopUp seedStore)))) = 1
   \<and> map le_account (ledger (fst (snd (topUp treasuryTopUp seedStore)))) = [''c1'', ''c1'']"
  by (simp add: store_defs engine_defs flow_defs example_defs)

text \<open>
  C6, amended: a first execution with valid input and \<open>fromAccountId\<close> equal to
  \<open>toAccountId\<close> is processed like any other transfer. It stores one Transaction. When the
  balance covers the amount, the account is debited and then credited by the amount, which
  in exact arithmetic leaves the accounts as they were, a debit entry and a credit entry
  on that account are written, and the Transaction completes. Otherwise the call fails
  with InsufficientBalance, the Transaction is left failed, the accounts are as they
  were and no ledger entry is written.
\<close>

theorem self_transfer_not_rejected:
  assumes run: "executeTransfer p s = (res, s', ops)"
    and same: "p_toAccountId p = p_fromAccountId p"
    and miss: "Transaction_findOne s (p_idempotencyKey p) (p_assetTypeId p) = None"
    and valid: "Transaction_valid (pendingDoc p)"
    and load: "loadAccounts s p = Inr (fa, ta)"
    and dist: "distinct (map acc_id (accounts s))"
  shows "accounts s' = accounts s
       \<and> (\<exists>t. transactions s' = transactions s @ [t]
            \<and> (if p_amount p \<le> balance fa
                then status t = Completed
                   \<and> res = Inr \<lparr>r_transaction = t, isIdempotentReplay = False\<rparr>
                   \<and> ops = [OpDebit (p_fromAccountId p) (p_amount p), OpCredit (p_fromAccountId p) (p_amount p)]
                   \<and> (\<exists>d c. ledger s' = ledger s @ [d, c]
                         \<and> le_account d = p_fromAccountId p \<and> le_account c = p_fromAccountId p
                         \<and> entryType d = Debit \<and> entryType c = Credit)
                else status t = Failed
                   \<and> res = Inl (InsufficientBalance (userId fa) (balance fa) (p_amount p))
                   \<and> ops = [OpDebit (p_fromAccountId p) (p_amount p)]
                   \<and> ledger s' = ledger s))"
proof -
  let ?t = "insertedDoc p s"
  let ?s2 = "s\<lparr>transactions := transactions s @ [?t]\<rparr>"
  note lf = loadAccounts_found[OF load]
  have eq: "ta = fa" using lf(1,2) same by simp
  have f2: "find (\<lambda>x. acc_id x = p_fromAccountId p) (accounts ?s2) = Some fa" using lf(1) by simp
  have d2: "distinct (map acc_id (accounts ?s2))" using dist by simp
  note au = applyUpdates_same_account[OF f2 lf(3) lf(5) refl same d2]
  from executeTransfer_seq[OF run] miss valid valid_pos[OF valid] load
  obtain r0 s0 where a: "applyUpdates no_env ?s2 p fa ta = (r0, s0, ops)"
    and acc: "accounts s' = accounts s0"
    and alt: "(\<exists>e. r0 = Inl e \<and> res = Inl e \<and> ledger s' = ledger s
                \<and> transactions s' = transactions s @ [?t\<lparr>status := Failed, failureReason := Some e\<rparr>])
            \<or> (\<exists>uf ut d c. r0 = Inr (uf, ut)
                \<and> res = Inr \<lparr>r_transaction = ?t\<lparr>status := Completed, ledgerEntries := [le_id d, le_id c]\<rparr>,
                              isIdempotentReplay = False\<rparr>
                \<and> transactions s' = transactions s @ [?t\<lparr>status := Completed, ledgerEntries := [le_id d, le_id c]\<rparr>]
                \<and> ledger s' = ledger s @ [d, c]
                \<and> le_account d = p_fromAccountId p \<and> le_account c = p_toAccountId p
                \<and> entryType d = Debit \<and> entryType c = Credit)"
    by (auto simp: not_less[symmetric])
  show ?thesis
  proof (cases "p_amount p \<le> balance fa")
    case True
    with au a eq have "r0 = Inr (fa\<lparr>balance := balance fa + - p_amount p\<rparr>, fa)" "s0 = ?s2"
      "ops = [OpDebit (p_fromAccountId p) (p_amount p), OpCredit (p_fromAccountId p) (p_amount p)]"
      by simp_all
    with alt acc True same show ?thesis by auto
  next
    case False
    with au a eq have "r0 = Inl (InsufficientBalance (userId fa) (balance fa) (p_amount p))" "s0 = ?s2"
      "ops = [OpDebit (p_fromAccountId p) (p_amount p)]"
      by simp_all
    with alt acc False show ?thesis by auto
  qed
qed

theorem self_transfer_not_rejected_witness:
  "\<exists>res s' ops. executeTransfer treasuryToItself seedStore = (res, s', ops)
      \<and> p_toAccountId treasuryToItself = p_fromAccountId treasuryToItself
      \<and> accounts s' = accounts seedStore
      \<and> map status (transactions s') = [Completed]
      \<and> ops = [OpDebit ''c1'' 100, OpCredit ''c1'' 100]"
proof -
  obtain res s' ops where e: "executeTransfer treasuryToItself seedStore = (res, s', ops)"
    by (metis prod_cases3)
  have same: "p_toAccountId treasuryToItself = p_fromAccountId treasuryToItself"
    by (simp add: example_defs)
  have miss: "Transaction_findOne seedStore (p_idempotencyKey treasuryToItself)
                (p_assetTypeId treasuryToItself) = None"
    by (simp add: store_defs example_defs)
  have valid: "Transaction_valid (pendingDoc treasuryToItself)"
    by (simp add: store_defs engine_defs example_defs)
  have "\<exists>fa ta. loadAccounts seedStore treasuryToItself = Inr (fa, ta) \<and> balance fa = 10000000"
    by (simp add: store_defs engine_defs example_defs)
  then obtain fa ta where load: "loadAccounts seedStore treasuryToItself = Inr (fa, ta)"
    and b: "balance fa = 10000000" by blast
  have dist: "distinct (map acc_id (accounts seedStore))"
    by (simp add: example_defs)
  have v: "p_amount treasuryToItself = 100" "p_fromAccountId treasuryToItself = ''c1''"
    "transactions seedStore = []"
    by (simp_all add: example_defs)
  from self_transfer_not_rejected[OF e same miss valid load dist] e same
  show ?thesis unfolding v b by auto
qed

subsection \<open>C7: the order of the two balance updates\<close>



subsection \<open>C8: the amount is not rounded\<close>




subsection \<open>C9: the resolver of system accounts\<close>

text \<open>
  C9. \<open>resolveSystemAccount\<close> should fail with WalletInactive on an inactive system account,
  as \<open>resolveUserAccount\<close> does. \<open>_getSystemAccount\<close> has no such check: with the treasury
  account deactivated it returns that inactive account, where \<open>_getUserAccount\<close> on the
  same account fails with WalletInactive.
\<close>

theorem system_resolver_returns_inactive:
  "getSystemAccount (deactivate ''c1'' seedStore) ''SYSTEM_TREASURY'' ''a1'' =
     Inr \<lparr>acc_id = ''c1'', userId = ''SYSTEM_TREASURY'', accountType = System, assetType = ''a1'',
          balance = 10000000, isActive = False\<rparr>
   \<and> getUserAccount (deactivate ''c1'' seedStore) ''SYSTEM_TREASURY'' ''a1'' =
     Inl (WalletInactive ''SYSTEM_TREASURY'')"
  by (simp add: flow_defs example_defs deactivate_def)

subsection \<open>C10: the lookup comes before validation\<close>

text \<open>
  C10. When the store the lookup sees holds a Transaction for the call's idempotency key
  and asset type, \<open>executeTransfer\<close> returns that Transaction with
  \<open>isIdempotentReplay = true\<close>, writes nothing and issues no balance update, whatever the
  other parameters of the call are: the amount, the two account ids and the type are
  not looked at.
\<close>

theorem replay_precedes_validation:
  "Transaction_findOne (ev 0 s) (p_idempotencyKey p) (p_assetTypeId p) = Some t \<Longrightarrow>
   executeTransfer_env ev p s =
     (Inr \<lparr>r_transaction = t, isIdempotentReplay = True\<rparr>, ev 0 s, [])"
  by (simp add: executeTransfer_env_def)

theorem replay_precedes_validation_witness:
  "p_amount invalidReplay \<le> 0
   \<and> loadAccounts (seedStore\<lparr>transactions := [racedTx]\<rparr>) invalidReplay = Inl (SourceNotFound ''nowhere'')
   \<and> executeTransfer_env no_env invalidReplay (seedStore\<lparr>transactions := [racedTx]\<rparr>) =
       (Inr \<lparr>r_transaction = racedTx, isIdempotentReplay = True\<rparr>,
        seedStore\<lparr>transactions := [racedTx]\<rparr>, [])"
proof -
  have h: "Transaction_findOne (no_env 0 (seedStore\<lparr>transactions := [racedTx]\<rparr>))
             (p_idempotencyKey invalidReplay) (p_assetTypeId invalidReplay) = Some racedTx"
    by (simp add: store_defs engine_defs example_defs)
  have v: "p_amount invalidReplay \<le> 0"
    "loadAccounts (seedStore\<lparr>transactions := [racedTx]\<rparr>) invalidReplay = Inl (SourceNotFound ''nowhere'')"
    by (simp_all add: store_defs engine_defs example_defs)
  from replay_precedes_validation[of no_env "seedStore\<lparr>transactions := [racedTx]\<rparr>" invalidReplay racedTx, OF h] v
  show ?thesis by (simp add: no_env_def)
qed

end
